theory Spec2Isabelle
  imports Main "HOL-Library.Word"
begin

section \<open>The document load controller of \<open>src/index.js\<close>\<close>

text \<open>
  The program is a browser entry file: two module-level flags, a drag-and-drop
  listener, a file picker, and two buttons that fetch a fixed asset. Every
  handler runs to completion on the event loop, so the embedding is a step
  function on a session state: one step per browser event (a user action, the
  settling of a promise, or an \<open>annotations.change\<close> event of the viewer).
  The viewer library, \<open>processFiles\<close> of \<open>./lib/utils\<close>, \<open>fetch\<close> and the user's
  answer to \<open>window.confirm\<close> are outside the file: what they return is carried
  by the event, and every call the file makes to them is appended to a log.
\<close>

subsection \<open>Data\<close>

type_synonym bytes = "8 word list"

text \<open>
  What \<open>load\<close> is handed: the value \<open>processFiles\<close> resolves with (the buffers
  of the files read) or the single buffer \<open>callWs\<close> builds.
\<close>

datatype jsval = ArrayBuffer bytes | ArrayBuffers "bytes list"

record configuration =
  container :: string
  document :: jsval

text \<open>The promises the file waits on, by what created them.\<close>

datatype pkind = DropRead | PickRead | AssetFetch | DownloadFetch | ViewerCreate

text \<open>One result of \<open>reader.read()\<close> before \<open>done\<close>: a chunk, or a rejection.\<close>

datatype read_result = Chunk bytes | ReadFailure

text \<open>Calls into the browser and the viewer library, in the order made.\<close>

datatype effect =
    ConsoleInfo string
  | ConsoleError string
  | Alert string
  | Confirm string
  | CallUnload string
  | CallLoad configuration nat
  | CallProcessFiles "string list" nat
  | CallFetch string string nat
  | ClearFileInput
  | SaveFile string bytes

datatype cleanup = RemoveDropListeners

text \<open>
  \<open>closures\<close> is the store of the \<open>initialized\<close> cells: one per handler that
  \<open>createOnAnnotationsChange\<close> returned, the handler being its index.
  \<open>registrations\<close> are the \<open>addEventListener\<close> calls as (instance, handler).
  \<open>dropListening\<close> is the listener \<open>dragDrop\<close> put on \<open>#body\<close>;
  \<open>destroyListener\<close> is the module variable holding its removal function.
\<close>

record session =
  hasUnsavedAnnotations :: bool
  isAlreadyLoaded :: bool
  destroyListener :: "cleanup option"
  dropListening :: bool
  dragTextHidden :: bool
  closures :: "bool list"
  registrations :: "(nat \<times> nat) list"
  pending :: "(nat \<times> pkind) list"
  nextPromise :: nat
  objectURLs :: "(nat \<times> bytes) list"
  nextURL :: nat
  effects :: "effect list"

datatype event =
    Drop "string list" bool
  | SelectFile "string list" bool
  | ClickCallAjax
  | ClickDownload
  | ReadResolved nat jsval
  | ReadRejected nat string
  | FetchResolved nat "read_result list"
  | FetchRejected nat
  | ViewerResolved nat nat
  | ViewerRejected nat string
  | AnnotationsChange nat

subsection \<open>The environment's primitives\<close>

definition emit :: "effect \<Rightarrow> session \<Rightarrow> session" where
  "emit e s = s\<lparr>effects := effects s @ [e]\<rparr>"

definition newPromise :: "pkind \<Rightarrow> session \<Rightarrow> nat \<times> session" where
  "newPromise k s =
     (nextPromise s,
      s\<lparr>pending := (nextPromise s, k) # pending s, nextPromise := Suc (nextPromise s)\<rparr>)"

definition settle :: "nat \<Rightarrow> session \<Rightarrow> session" where
  "settle p s = s\<lparr>pending := filter (\<lambda>(q, k). q \<noteq> p) (pending s)\<rparr>"

definition PSPDFKit_unload :: "string \<Rightarrow> session \<Rightarrow> session" where
  "PSPDFKit_unload target s = emit (CallUnload target) s"

definition PSPDFKit_load :: "configuration \<Rightarrow> session \<Rightarrow> session" where
  "PSPDFKit_load cfg s =
     (let (p, s1) = newPromise ViewerCreate s in emit (CallLoad cfg p) s1)"

definition processFiles :: "string list \<Rightarrow> pkind \<Rightarrow> session \<Rightarrow> session" where
  "processFiles files k s =
     (let (p, s1) = newPromise k s in emit (CallProcessFiles files p) s1)"

definition fetch :: "pkind \<Rightarrow> session \<Rightarrow> session" where
  "fetch k s =
     (let (p, s1) = newPromise k s in emit (CallFetch ''/assets/example.pdf'' ''GET'' p) s1)"

definition addEventListener :: "nat \<Rightarrow> nat \<Rightarrow> session \<Rightarrow> session" where
  "addEventListener inst h s = s\<lparr>registrations := registrations s @ [(inst, h)]\<rparr>"

subsection \<open>The change observer (lines 27-37)\<close>

definition createOnAnnotationsChange :: "session \<Rightarrow> nat \<times> session" where
  "createOnAnnotationsChange s =
     (length (closures s), s\<lparr>closures := closures s @ [False]\<rparr>)"

text \<open>A call of handler \<open>h\<close>; a handler that was never created does nothing.\<close>

definition onAnnotationsChange :: "nat \<Rightarrow> session \<Rightarrow> session" where
  "onAnnotationsChange h s =
     (if h < length (closures s) then
        (if closures s ! h then s\<lparr>hasUnsavedAnnotations := True\<rparr>
         else s\<lparr>closures := (closures s)[h := True]\<rparr>)
      else s)"

text \<open>The viewer fires \<open>annotations.change\<close> on an instance: its listeners run in order.\<close>

definition dispatch :: "nat \<Rightarrow> session \<Rightarrow> session" where
  "dispatch inst s =
     fold onAnnotationsChange (map snd (filter (\<lambda>(j, h). j = inst) (registrations s))) s"

subsection \<open>\<open>load\<close> (lines 46-70)\<close>

definition load :: "jsval \<Rightarrow> session \<Rightarrow> session" where
  "load pdfArrayBuffers s =
     (let pdfArrayBuffer = pdfArrayBuffers;
          s1 = (if isAlreadyLoaded s then
                  (PSPDFKit_unload ''.App''
                     (emit (ConsoleInfo ''Destroyed previous instance'') s))
                  \<lparr>hasUnsavedAnnotations := False\<rparr>
                else s);
          s2 = s1\<lparr>isAlreadyLoaded := True\<rparr>;
          cfg = \<lparr>container = ''.App'', document = pdfArrayBuffer\<rparr>
      in PSPDFKit_load cfg s2)"

text \<open>The two continuations of \<open>PSPDFKit.load(configuration)\<close>.\<close>

definition load_then :: "nat \<Rightarrow> session \<Rightarrow> session" where
  "load_then inst s =
     (let (h, s1) = createOnAnnotationsChange s in addEventListener inst h s1)"

definition load_catch :: "string \<Rightarrow> session \<Rightarrow> session" where
  "load_catch err s = emit (ConsoleError err) s"

subsection \<open>File picking and drag and drop (lines 77-138)\<close>

definition onFail :: "string \<Rightarrow> session \<Rightarrow> session" where
  "onFail message s = emit (Alert message) s"

text \<open>
  \<open>answer\<close> is what the user would answer to \<open>window.confirm\<close>; the dialog is
  shown only when the left operand of \<open>&&\<close> is true.
\<close>

definition shouldPreventLoad :: "bool \<Rightarrow> session \<Rightarrow> bool \<times> session" where
  "shouldPreventLoad answer s =
     (if hasUnsavedAnnotations s then
        (\<not> answer,
         emit (Confirm ''You have unsaved changes. By continuing, you will lose those changes.'') s)
      else (False, s))"

definition destroyDragAndDrop :: "session \<Rightarrow> session" where
  "destroyDragAndDrop s =
     (case destroyListener s of
        Some RemoveDropListeners \<Rightarrow>
          s\<lparr>dropListening := False, dragTextHidden := True, destroyListener := None\<rparr>
      | None \<Rightarrow> s)"

definition onDrop :: "string list \<Rightarrow> bool \<Rightarrow> session \<Rightarrow> session" where
  "onDrop files answer s =
     (let (prevent, s1) = shouldPreventLoad answer s in
      if prevent then s1 else processFiles files DropRead s1)"

definition onDrop_then :: "jsval \<Rightarrow> session \<Rightarrow> session" where
  "onDrop_then arrayBuffers s = load arrayBuffers (destroyDragAndDrop s)"

definition onFileSelectSuccess :: "jsval \<Rightarrow> session \<Rightarrow> session" where
  "onFileSelectSuccess pdfArrayBuffers s = load pdfArrayBuffers (destroyDragAndDrop s)"

definition onSelectFileChange :: "string list \<Rightarrow> bool \<Rightarrow> session \<Rightarrow> session" where
  "onSelectFileChange files answer s =
     (if files = [] then emit ClearFileInput s
      else
        (let (prevent, s1) = shouldPreventLoad answer s in
         if prevent then emit ClearFileInput s1
         else emit ClearFileInput (processFiles files PickRead s1)))"

subsection \<open>\<open>callWs\<close> (lines 145-180)\<close>

definition callWs :: "session \<Rightarrow> session" where
  "callWs s = fetch AssetFetch s"

text \<open>
  The loop of \<open>start(controller)\<close>: every chunk read is enqueued until the
  reader reports \<open>done\<close> (the results are used up); a rejected read rejects
  \<open>start\<close> and the stream is in error.
\<close>

fun pump :: "read_result list \<Rightarrow> bytes list \<Rightarrow> bytes list option" where
  "pump [] queue = Some queue"
| "pump (Chunk v # rest) queue = pump rest (queue @ [v])"
| "pump (ReadFailure # rest) queue = None"

text \<open>\<open>new Response(rs).arrayBuffer()\<close>: the enqueued chunks, joined.\<close>

definition arrayBuffer :: "bytes list option \<Rightarrow> bytes option" where
  "arrayBuffer rs = map_option concat rs"

text \<open>The chain after \<open>fetch\<close> resolved; it has no \<open>catch\<close>, a rejection ends it.\<close>

definition callWs_then :: "read_result list \<Rightarrow> session \<Rightarrow> session" where
  "callWs_then results s =
     (case arrayBuffer (pump results []) of
        Some buf \<Rightarrow> load (ArrayBuffer buf) s
      | None \<Rightarrow> s)"

subsection \<open>\<open>download\<close> (lines 186-206)\<close>

definition download :: "session \<Rightarrow> session" where
  "download s = fetch DownloadFetch s"

text \<open>\<open>res.blob()\<close>: the whole body, or a rejection when a read fails.\<close>

fun blob :: "read_result list \<Rightarrow> bytes option" where
  "blob [] = Some []"
| "blob (Chunk v # rest) = map_option (\<lambda>b. v @ b) (blob rest)"
| "blob (ReadFailure # rest) = None"

text \<open>\<open>new Blob(parts)\<close>: the parts, joined.\<close>

definition Blob :: "bytes list \<Rightarrow> bytes" where
  "Blob parts = concat parts"

definition createObjectURL :: "bytes \<Rightarrow> session \<Rightarrow> nat \<times> session" where
  "createObjectURL b s =
     (nextURL s, s\<lparr>objectURLs := (nextURL s, b) # objectURLs s, nextURL := Suc (nextURL s)\<rparr>)"

definition revokeObjectURL :: "nat \<Rightarrow> session \<Rightarrow> session" where
  "revokeObjectURL u s = s\<lparr>objectURLs := filter (\<lambda>(v, b). v \<noteq> u) (objectURLs s)\<rparr>"

text \<open>
  A click on an anchor whose \<open>download\<close> attribute is \<open>name\<close>: the browser
  saves what \<open>href\<close> denotes under that name.
\<close>

definition click :: "nat \<Rightarrow> string \<Rightarrow> session \<Rightarrow> session" where
  "click href name s =
     (case map_of (objectURLs s) href of
        Some b \<Rightarrow> emit (SaveFile name b) s
      | None \<Rightarrow> s)"

definition download_then :: "read_result list \<Rightarrow> session \<Rightarrow> session" where
  "download_then results s =
     (case blob results of
        None \<Rightarrow> s
      | Some b \<Rightarrow>
          (let newBlob = Blob [b];
               (blobUrl, s1) = createObjectURL newBlob s;
               s2 = click blobUrl ''a.pdf'' s1
           in revokeObjectURL blobUrl s2))"

subsection \<open>The event loop\<close>

definition kind_of :: "session \<Rightarrow> nat \<Rightarrow> pkind option" where
  "kind_of s p = map_of (pending s) p"

text \<open>
  One browser event. An event that settles a promise nobody waits on, or with
  a result of the wrong sort, cannot occur and is a no-op.

  The chain of \<open>callWs\<close> and the two \<open>await\<close>s of \<open>download\<close> touch no
  module variable before their last link, so each is one event, carrying every
  result of reading the body. The elements the file looks up with
  \<open>querySelector\<close> are taken to exist, and the calls into the viewer and the
  browser not to throw. Nothing is assumed of the viewer beyond its interface:
  it may fire \<open>annotations.change\<close> on any instance at any time, and an event
  reaches exactly the handlers registered on that instance.
\<close>

fun step :: "session \<Rightarrow> event \<Rightarrow> session" where
  "step s (Drop files answer) = (if dropListening s then onDrop files answer s else s)"
| "step s (SelectFile files answer) = onSelectFileChange files answer s"
| "step s ClickCallAjax = callWs s"
| "step s ClickDownload = download s"
| "step s (ReadResolved p bufs) =
     (if kind_of s p = Some DropRead then onDrop_then bufs (settle p s)
      else if kind_of s p = Some PickRead then onFileSelectSuccess bufs (settle p s)
      else s)"
| "step s (ReadRejected p message) =
     (if kind_of s p = Some DropRead \<or> kind_of s p = Some PickRead
      then onFail message (settle p s) else s)"
| "step s (FetchResolved p results) =
     (if kind_of s p = Some AssetFetch then callWs_then results (settle p s)
      else if kind_of s p = Some DownloadFetch then download_then results (settle p s)
      else s)"
| "step s (FetchRejected p) =
     (if kind_of s p = Some AssetFetch \<or> kind_of s p = Some DownloadFetch
      then settle p s else s)"
| "step s (ViewerResolved p inst) =
     (if kind_of s p = Some ViewerCreate then load_then inst (settle p s) else s)"
| "step s (ViewerRejected p err) =
     (if kind_of s p = Some ViewerCreate then load_catch err (settle p s) else s)"
| "step s (AnnotationsChange inst) = dispatch inst s"

definition run :: "session \<Rightarrow> event list \<Rightarrow> session" where
  "run s es = foldl step s es"

text \<open>The state when the module has been evaluated (lines 17, 18 and 95).\<close>

definition init :: session where
  "init = \<lparr>hasUnsavedAnnotations = False, isAlreadyLoaded = False,
            destroyListener = Some RemoveDropListeners, dropListening = True,
            dragTextHidden = False, closures = [], registrations = [],
            pending = [], nextPromise = 0, objectURLs = [], nextURL = 0,
            effects = []\<rparr>"

subsection \<open>Reachable states and sample traces\<close>

text \<open>
  What holds of every state reached from \<open>init\<close>: the dirty flag is only set
  by an observer, observers and pending viewer promises only exist once \<open>load\<close>
  has run, and the drop listener is attached exactly as long as
  \<open>destroyListener\<close> holds its removal function.
\<close>

definition session_inv :: "session \<Rightarrow> bool" where
  "session_inv s =
     ((hasUnsavedAnnotations s \<longrightarrow> registrations s \<noteq> []) \<and>
      (registrations s \<noteq> [] \<longrightarrow> isAlreadyLoaded s) \<and>
      (ViewerCreate \<in> snd ` set (pending s) \<longrightarrow> isAlreadyLoaded s) \<and>
      (dropListening s = (destroyListener s \<noteq> None)))"

fun is_ViewerResolved :: "event \<Rightarrow> bool" where
  "is_ViewerResolved (ViewerResolved p inst) = True"
| "is_ViewerResolved e = False"

text \<open>
  A document picked with the file picker, its two first change events; and the
  same through the remote asset, which leaves the drop listener in place.
\<close>

definition edited :: "event list" where
  "edited = [SelectFile [''a.pdf''] True, ReadResolved 0 (ArrayBuffers [[37]]),
             ViewerResolved 1 0, AnnotationsChange 0, AnnotationsChange 0]"

definition edited_remote :: "event list" where
  "edited_remote = [ClickCallAjax, FetchResolved 0 [Chunk [1, 2], Chunk [3]],
                    ViewerResolved 1 0, AnnotationsChange 0, AnnotationsChange 0]"

section \<open>Properties\<close>

lemmas handler_defs =
  emit_def newPromise_def settle_def PSPDFKit_unload_def PSPDFKit_load_def
  processFiles_def fetch_def addEventListener_def createOnAnnotationsChange_def
  onAnnotationsChange_def dispatch_def load_def load_then_def load_catch_def
  onFail_def shouldPreventLoad_def destroyDragAndDrop_def onDrop_def onDrop_then_def
  onFileSelectSuccess_def onSelectFileChange_def callWs_def arrayBuffer_def
  callWs_then_def download_def Blob_def createObjectURL_def revokeObjectURL_def
  click_def download_then_def kind_of_def

subsection \<open>Traces\<close>

lemma run_Nil: "run s [] = s"
  by (simp add: run_def)

lemma run_Cons: "run s (e # es) = run (step s e) es"
  by (simp add: run_def)

lemma run_append: "run s (es @ es') = run (run s es) es'"
  by (simp add: run_def)

lemma run_snoc: "run s (es @ [e]) = step (run s es) e"
  by (simp add: run_def)

subsection \<open>What the handlers touch\<close>

lemma fold_onAC_frame:
  "isAlreadyLoaded (fold onAnnotationsChange hs s) = isAlreadyLoaded s \<and>
   destroyListener (fold onAnnotationsChange hs s) = destroyListener s \<and>
   dropListening (fold onAnnotationsChange hs s) = dropListening s \<and>
   dragTextHidden (fold onAnnotationsChange hs s) = dragTextHidden s \<and>
   registrations (fold onAnnotationsChange hs s) = registrations s \<and>
   pending (fold onAnnotationsChange hs s) = pending s \<and>
   nextPromise (fold onAnnotationsChange hs s) = nextPromise s \<and>
   objectURLs (fold onAnnotationsChange hs s) = objectURLs s \<and>
   nextURL (fold onAnnotationsChange hs s) = nextURL s \<and>
   effects (fold onAnnotationsChange hs s) = effects s \<and>
   length (closures (fold onAnnotationsChange hs s)) = length (closures s)"
  by (induction hs arbitrary: s) (simp_all add: onAnnotationsChange_def)

lemma fold_onAC_dirty_mono:
  "hasUnsavedAnnotations s \<Longrightarrow> hasUnsavedAnnotations (fold onAnnotationsChange hs s)"
  by (induction hs arbitrary: s) (simp_all add: onAnnotationsChange_def)

lemma load_flags:
  "isAlreadyLoaded (load doc s) \<and>
   hasUnsavedAnnotations (load doc s) = (\<not> isAlreadyLoaded s \<and> hasUnsavedAnnotations s)"
  by (simp add: handler_defs Let_def)

lemma load_effects:
  "effects (load doc s) =
     effects s
     @ (if isAlreadyLoaded s
        then [ConsoleInfo ''Destroyed previous instance'', CallUnload ''.App''] else [])
     @ [CallLoad \<lparr>container = ''.App'', document = doc\<rparr> (nextPromise s)]"
  by (simp add: handler_defs Let_def)

lemma load_frame:
  "destroyListener (load doc s) = destroyListener s \<and>
   dropListening (load doc s) = dropListening s \<and>
   dragTextHidden (load doc s) = dragTextHidden s \<and>
   closures (load doc s) = closures s \<and>
   registrations (load doc s) = registrations s \<and>
   pending (load doc s) = (nextPromise s, ViewerCreate) # pending s \<and>
   nextPromise (load doc s) = Suc (nextPromise s) \<and>
   objectURLs (load doc s) = objectURLs s \<and>
   nextURL (load doc s) = nextURL s"
  by (simp add: handler_defs Let_def)

lemma step_isAlreadyLoaded: "isAlreadyLoaded s \<Longrightarrow> isAlreadyLoaded (step s e)"
  by (cases e)
    (simp_all add: handler_defs fold_onAC_frame Let_def split: option.splits cleanup.splits)

lemma run_isAlreadyLoaded: "isAlreadyLoaded s \<Longrightarrow> isAlreadyLoaded (run s es)"
  unfolding run_def by (induction es arbitrary: s) (simp_all add: step_isAlreadyLoaded)

subsection \<open>The loaded flag\<close>

text \<open>
  Claim C9. \<open>isAlreadyLoaded\<close> only ever goes up: it is false when the module
  has been evaluated; any call of \<open>load\<close> leaves it true while the promise of
  \<open>PSPDFKit.load\<close> is still pending; the rejection of that promise leaves it
  true; and once true it is true after every event and every trace of events.
\<close>

theorem isAlreadyLoaded_monotone:
  "\<not> isAlreadyLoaded init \<and>
   isAlreadyLoaded (load doc s) \<and>
   kind_of (load doc s) (nextPromise s) = Some ViewerCreate \<and>
   isAlreadyLoaded (step (load doc s) (ViewerRejected (nextPromise s) err)) \<and>
   (isAlreadyLoaded s \<longrightarrow> isAlreadyLoaded (step s e)) \<and>
   (isAlreadyLoaded s \<longrightarrow> isAlreadyLoaded (run s es))"
proof -
  have a: "\<not> isAlreadyLoaded init" by (simp add: init_def)
  have b: "isAlreadyLoaded (load doc s)" by (simp add: load_flags)
  have c: "kind_of (load doc s) (nextPromise s) = Some ViewerCreate"
    by (simp add: kind_of_def load_frame)
  have d: "isAlreadyLoaded (step (load doc s) (ViewerRejected (nextPromise s) err))"
    using b by (rule step_isAlreadyLoaded)
  show ?thesis using a b c d step_isAlreadyLoaded run_isAlreadyLoaded by blast
qed

theorem isAlreadyLoaded_monotone_witness:
  "isAlreadyLoaded (load (ArrayBuffer [37]) init) \<and>
   isAlreadyLoaded (step (load (ArrayBuffer [37]) init) (ViewerRejected 0 ''bad pdf'')) \<and>
   isAlreadyLoaded
     (run (load (ArrayBuffer [37]) init) [ViewerRejected 0 ''bad pdf'', ClickDownload])"
  using isAlreadyLoaded_monotone
          [of "ArrayBuffer [37]" "load (ArrayBuffer [37]) init" "''bad pdf''"
              "ViewerRejected 0 ''bad pdf''" "[ViewerRejected 0 ''bad pdf'', ClickDownload]"]
  by (simp add: load_flags)

subsection \<open>Two sessions with an edited document\<close>

lemma run_edited:
  "run init edited =
     \<lparr>hasUnsavedAnnotations = True, isAlreadyLoaded = True,
      destroyListener = None, dropListening = False, dragTextHidden = True,
      closures = [True], registrations = [(0, 0)], pending = [],
      nextPromise = 2, objectURLs = [], nextURL = 0,
      effects =
        [CallProcessFiles [''a.pdf''] 0, ClearFileInput,
         CallLoad \<lparr>container = ''.App'', document = ArrayBuffers [[37]]\<rparr> 1]\<rparr>"
  by (simp add: edited_def run_def init_def handler_defs)

lemma run_edited_remote:
  "run init edited_remote =
     \<lparr>hasUnsavedAnnotations = True, isAlreadyLoaded = True,
      destroyListener = Some RemoveDropListeners, dropListening = True,
      dragTextHidden = False, closures = [True], registrations = [(0, 0)],
      pending = [], nextPromise = 2, objectURLs = [], nextURL = 0,
      effects =
        [CallFetch ''/assets/example.pdf'' ''GET'' 0,
         CallLoad \<lparr>container = ''.App'', document = ArrayBuffer [1, 2, 3]\<rparr> 1]\<rparr>"
  by (simp add: edited_remote_def run_def init_def handler_defs)

subsection \<open>Teardown in \<open>load\<close>\<close>

lemma step_reset_only_in_load:
  assumes "hasUnsavedAnnotations s" and "\<not> hasUnsavedAnnotations (step s e)"
  shows "isAlreadyLoaded s \<and>
         (\<exists>doc. effects (step s e) =
            effects s @ [ConsoleInfo ''Destroyed previous instance'', CallUnload ''.App'',
                         CallLoad \<lparr>container = ''.App'', document = doc\<rparr> (nextPromise s)])"
proof (cases e)
  case (AnnotationsChange i)
  with assms show ?thesis by (simp add: dispatch_def fold_onAC_dirty_mono)
next
  case (ReadResolved p bufs)
  with assms show ?thesis
    by (auto simp add: onDrop_then_def onFileSelectSuccess_def load_flags load_effects
        settle_def destroyDragAndDrop_def split: if_splits option.splits cleanup.splits)
next
  case (FetchResolved p results)
  with assms show ?thesis
    by (auto simp add: callWs_then_def download_then_def load_flags load_effects
        settle_def createObjectURL_def click_def revokeObjectURL_def emit_def Let_def
        split: if_splits option.splits)
qed (use assms in \<open>auto simp add: handler_defs Let_def split: if_splits\<close>)

text \<open>
  Claim C5. A call of \<open>load\<close> while \<open>isAlreadyLoaded\<close> is true logs, calls
  \<open>PSPDFKit.unload(".App")\<close> once, and only then calls \<open>PSPDFKit.load\<close>; the
  dirty flag is false afterwards. A call while it is false makes the one
  \<open>PSPDFKit.load\<close> call and leaves the dirty flag alone. And whatever the event,
  a step that takes the dirty flag from true to false is such a teardown: the
  calls it made are exactly the log line, the one unload and the load.
\<close>

theorem load_unloads_once_and_resets:
  "(isAlreadyLoaded s \<longrightarrow>
      effects (load doc s) =
        effects s @ [ConsoleInfo ''Destroyed previous instance'', CallUnload ''.App'',
                     CallLoad \<lparr>container = ''.App'', document = doc\<rparr> (nextPromise s)] \<and>
      \<not> hasUnsavedAnnotations (load doc s)) \<and>
   (\<not> isAlreadyLoaded s \<longrightarrow>
      effects (load doc s) =
        effects s @ [CallLoad \<lparr>container = ''.App'', document = doc\<rparr> (nextPromise s)] \<and>
      hasUnsavedAnnotations (load doc s) = hasUnsavedAnnotations s) \<and>
   (hasUnsavedAnnotations s \<and> \<not> hasUnsavedAnnotations (step s e) \<longrightarrow>
      isAlreadyLoaded s \<and>
      (\<exists>doc'. effects (step s e) =
         effects s @ [ConsoleInfo ''Destroyed previous instance'', CallUnload ''.App'',
                      CallLoad \<lparr>container = ''.App'', document = doc'\<rparr> (nextPromise s)]))"
  using step_reset_only_in_load [of s e] by (simp add: load_flags load_effects)

theorem load_unloads_once_and_resets_witness:
  "isAlreadyLoaded (run init edited) \<and> hasUnsavedAnnotations (run init edited) \<and>
   effects (load (ArrayBuffer [38]) (run init edited)) =
     [CallProcessFiles [''a.pdf''] 0, ClearFileInput,
      CallLoad \<lparr>container = ''.App'', document = ArrayBuffers [[37]]\<rparr> 1,
      ConsoleInfo ''Destroyed previous instance'', CallUnload ''.App'',
      CallLoad \<lparr>container = ''.App'', document = ArrayBuffer [38]\<rparr> 2] \<and>
   \<not> hasUnsavedAnnotations (load (ArrayBuffer [38]) (run init edited)) \<and>
   \<not> isAlreadyLoaded init \<and>
   effects (load (ArrayBuffer [38]) init) =
     [CallLoad \<lparr>container = ''.App'', document = ArrayBuffer [38]\<rparr> 0]"
  using load_unloads_once_and_resets [of "run init edited" "ArrayBuffer [38]"]
        load_unloads_once_and_resets [of init "ArrayBuffer [38]"]
  by (simp add: run_edited) (simp add: init_def)

subsection \<open>The confirmation before a drop or a pick\<close>

text \<open>
  Claim C4. In a state whose dirty flag is true, a drop (while the drop
  listener is attached) and a pick of at least one file first show the
  confirmation dialog, whatever the answer will be. When the answer is no, the
  state after the event is the state before it but for the log: the dialog, and
  for the picker the reset of the input. No flag changes, no promise is
  created, the viewer is not called.
\<close>

theorem declined_confirmation_changes_nothing:
  assumes "hasUnsavedAnnotations s"
  shows "(dropListening s \<longrightarrow>
            step s (Drop files False) =
              s\<lparr>effects := effects s @
                 [Confirm ''You have unsaved changes. By continuing, you will lose those changes.'']\<rparr> \<and>
            take (Suc (length (effects s))) (effects (step s (Drop files answer))) =
              effects s @
                 [Confirm ''You have unsaved changes. By continuing, you will lose those changes.'']) \<and>
         (files \<noteq> [] \<longrightarrow>
            step s (SelectFile files False) =
              s\<lparr>effects := effects s @
                 [Confirm ''You have unsaved changes. By continuing, you will lose those changes.'',
                  ClearFileInput]\<rparr> \<and>
            take (Suc (length (effects s))) (effects (step s (SelectFile files answer))) =
              effects s @
                 [Confirm ''You have unsaved changes. By continuing, you will lose those changes.''])"
  using assms by (simp add: handler_defs Let_def)

theorem declined_confirmation_changes_nothing_witness:
  "hasUnsavedAnnotations (run init edited_remote) \<and> dropListening (run init edited_remote) \<and>
   step (run init edited_remote) (Drop [''b.pdf''] False) =
     (run init edited_remote)
       \<lparr>effects :=
          [CallFetch ''/assets/example.pdf'' ''GET'' 0,
           CallLoad \<lparr>container = ''.App'', document = ArrayBuffer [1, 2, 3]\<rparr> 1,
           Confirm ''You have unsaved changes. By continuing, you will lose those changes.'']\<rparr> \<and>
   step (run init edited_remote) (SelectFile [''b.pdf''] False) =
     (run init edited_remote)
       \<lparr>effects :=
          [CallFetch ''/assets/example.pdf'' ''GET'' 0,
           CallLoad \<lparr>container = ''.App'', document = ArrayBuffer [1, 2, 3]\<rparr> 1,
           Confirm ''You have unsaved changes. By continuing, you will lose those changes.'',
           ClearFileInput]\<rparr>"
  using declined_confirmation_changes_nothing
          [of "run init edited_remote" "[''b.pdf'']" False]
  by (simp add: run_edited_remote)

subsection \<open>The change observer\<close>

lemma dispatch_fresh:
  assumes "inst \<notin> fst ` set regs"
  shows "map snd (filter (\<lambda>(j, h). j = inst) (regs @ [(inst, h)])) = [h]"
proof -
  have "filter (\<lambda>(j, h). j = inst) regs = []"
    using assms by (induction regs) auto
  then show ?thesis by simp
qed

lemma observer_later_events:
  assumes "map snd (filter (\<lambda>(j, h). j = inst) (registrations s)) = [h]"
    and "h < length (closures s)" and "closures s ! h"
  shows "hasUnsavedAnnotations (run s (replicate (Suc n) (AnnotationsChange inst)))"
proof -
  have one: "hasUnsavedAnnotations (step s (AnnotationsChange inst))"
    using assms by (simp add: dispatch_def onAnnotationsChange_def)
  have keep: "hasUnsavedAnnotations t \<Longrightarrow>
      hasUnsavedAnnotations (run t (replicate m (AnnotationsChange inst)))" for t m
    by (induction m arbitrary: t)
      (simp_all add: run_Nil run_Cons dispatch_def fold_onAC_dirty_mono)
  show ?thesis using keep [OF one] by (simp add: run_Cons)
qed

text \<open>
  Claim C6. When the promise of \<open>PSPDFKit.load\<close> resolves with a new instance,
  a new handler is created, its \<open>initialized\<close> cell false, and registered on
  that instance; the dirty flag is as before. The first \<open>annotations.change\<close>
  of the instance sets the cell and leaves the dirty flag as it was; after any
  further event, one or more, the dirty flag is true.
\<close>

theorem observer_skips_first_event_only:
  assumes "kind_of s p = Some ViewerCreate" and "inst \<notin> fst ` set (registrations s)"
  shows "closures (step s (ViewerResolved p inst)) = closures s @ [False] \<and>
         registrations (step s (ViewerResolved p inst)) =
           registrations s @ [(inst, length (closures s))] \<and>
         hasUnsavedAnnotations (step s (ViewerResolved p inst)) = hasUnsavedAnnotations s \<and>
         hasUnsavedAnnotations (run s [ViewerResolved p inst, AnnotationsChange inst]) =
           hasUnsavedAnnotations s \<and>
         closures (run s [ViewerResolved p inst, AnnotationsChange inst]) = closures s @ [True] \<and>
         hasUnsavedAnnotations
           (run s (ViewerResolved p inst # AnnotationsChange inst #
                   replicate (Suc n) (AnnotationsChange inst)))"
proof -
  define s1 where "s1 = step s (ViewerResolved p inst)"
  define s2 where "s2 = step s1 (AnnotationsChange inst)"
  have s1: "s1 = (settle p s)\<lparr>closures := closures s @ [False],
                 registrations := registrations s @ [(inst, length (closures s))]\<rparr>"
    using assms(1) by (simp add: s1_def load_then_def createOnAnnotationsChange_def
        addEventListener_def settle_def)
  have hs: "map snd (filter (\<lambda>(j, h). j = inst) (registrations s1)) = [length (closures s)]"
    using dispatch_fresh [OF assms(2)] by (simp add: s1)
  have s2: "s2 = s1\<lparr>closures := closures s @ [True]\<rparr>"
    unfolding s2_def using hs by (simp add: dispatch_def onAnnotationsChange_def s1)
  have regs2: "map snd (filter (\<lambda>(j, h). j = inst) (registrations s2)) = [length (closures s)]"
    using hs by (simp add: s2)
  have later: "hasUnsavedAnnotations (run s2 (replicate (Suc n) (AnnotationsChange inst)))"
    by (rule observer_later_events [OF regs2]) (simp_all add: s2)
  have a: "hasUnsavedAnnotations s2 = hasUnsavedAnnotations s"
    by (simp add: s2 s1 settle_def)
  have b: "closures s2 = closures s @ [True]" by (simp add: s2)
  have c: "hasUnsavedAnnotations s1 = hasUnsavedAnnotations s"
    by (simp add: s1 settle_def)
  have d: "closures s1 = closures s @ [False]"
    and e: "registrations s1 = registrations s @ [(inst, length (closures s))]"
    by (simp_all add: s1 settle_def)
  have r1: "run s [ViewerResolved p inst, AnnotationsChange inst] = s2"
    by (simp add: run_def s1_def s2_def)
  have r2: "run s (ViewerResolved p inst # AnnotationsChange inst #
                   replicate (Suc n) (AnnotationsChange inst)) =
            run s2 (replicate (Suc n) (AnnotationsChange inst))"
    unfolding run_Cons s1_def s2_def ..
  show ?thesis
    unfolding r1 r2 using later a b c d e unfolding s1_def by blast
qed

text \<open>
  At the second load of a session: the first instance \<open>0\<close> has been edited and
  the user confirmed; the observer of the second instance \<open>1\<close> starts afresh.
\<close>

theorem observer_skips_first_event_only_witness:
  "kind_of (run init (edited @ [SelectFile [''b.pdf''] True,
                                 ReadResolved 2 (ArrayBuffers [[38]])])) 3 = Some ViewerCreate \<and>
   1 \<notin> fst ` set (registrations (run init (edited @ [SelectFile [''b.pdf''] True,
                                 ReadResolved 2 (ArrayBuffers [[38]])]))) \<and>
   closures (run init (edited @ [SelectFile [''b.pdf''] True,
               ReadResolved 2 (ArrayBuffers [[38]]), ViewerResolved 3 1])) = [True, False] \<and>
   \<not> hasUnsavedAnnotations (run init (edited @ [SelectFile [''b.pdf''] True,
               ReadResolved 2 (ArrayBuffers [[38]]), ViewerResolved 3 1,
               AnnotationsChange 1])) \<and>
   hasUnsavedAnnotations (run init (edited @ [SelectFile [''b.pdf''] True,
               ReadResolved 2 (ArrayBuffers [[38]]), ViewerResolved 3 1,
               AnnotationsChange 1, AnnotationsChange 1]))"
proof -
  define s where "s = run init (edited @ [SelectFile [''b.pdf''] True,
                                          ReadResolved 2 (ArrayBuffers [[38]])])"
  have s: "s = \<lparr>hasUnsavedAnnotations = False, isAlreadyLoaded = True,
      destroyListener = None, dropListening = False, dragTextHidden = True,
      closures = [True], registrations = [(0, 0)], pending = [(3, ViewerCreate)],
      nextPromise = 4, objectURLs = [], nextURL = 0,
      effects =
        [CallProcessFiles [''a.pdf''] 0, ClearFileInput,
         CallLoad \<lparr>container = ''.App'', document = ArrayBuffers [[37]]\<rparr> 1,
         Confirm ''You have unsaved changes. By continuing, you will lose those changes.'',
         CallProcessFiles [''b.pdf''] 2, ClearFileInput,
         ConsoleInfo ''Destroyed previous instance'', CallUnload ''.App'',
         CallLoad \<lparr>container = ''.App'', document = ArrayBuffers [[38]]\<rparr> 3]\<rparr>"
    unfolding s_def run_append run_edited by (simp add: run_def handler_defs)
  have k: "kind_of s 3 = Some ViewerCreate" and f: "1 \<notin> fst ` set (registrations s)"
    by (simp_all add: s kind_of_def)
  have r: "run init (edited @ [SelectFile [''b.pdf''] True,
               ReadResolved 2 (ArrayBuffers [[38]])] @ es) = run s es" for es
    unfolding s_def by (simp add: run_def)
  from observer_skips_first_event_only [OF k f, of 0] k f
  show ?thesis
    using r [of "[]"] r [of "[ViewerResolved 3 1]"]
      r [of "[ViewerResolved 3 1, AnnotationsChange 1]"]
      r [of "[ViewerResolved 3 1, AnnotationsChange 1, AnnotationsChange 1]"]
    by (simp add: run_Cons run_Nil del: step.simps) (simp add: s)
qed

subsection \<open>The download\<close>

lemma blob_chunks: "blob (map Chunk chunks) = Some (concat chunks)"
  by (induction chunks) simp_all

text \<open>
  Claim C8. A click on the download button followed by the arrival of the
  response, its body read without failure, saves one file named \<open>a.pdf\<close> whose
  content is the body's chunks joined, byte for byte: the bytes go through
  \<open>res.blob()\<close>, \<open>new Blob([blob])\<close>, the object URL and the click on the
  anchor unchanged. The same holds for any pending download fetch, whatever
  happened since the click, and the two flags are not touched.
\<close>

theorem download_saves_fetched_bytes:
  "effects (run s [ClickDownload, FetchResolved (nextPromise s) (map Chunk chunks)]) =
     effects s @ [CallFetch ''/assets/example.pdf'' ''GET'' (nextPromise s),
                  SaveFile ''a.pdf'' (concat chunks)] \<and>
   (kind_of s p = Some DownloadFetch \<longrightarrow>
      effects (step s (FetchResolved p (map Chunk chunks))) =
        effects s @ [SaveFile ''a.pdf'' (concat chunks)] \<and>
      hasUnsavedAnnotations (step s (FetchResolved p (map Chunk chunks))) =
        hasUnsavedAnnotations s \<and>
      isAlreadyLoaded (step s (FetchResolved p (map Chunk chunks))) = isAlreadyLoaded s)"
  by (simp add: run_Cons run_Nil blob_chunks handler_defs Let_def)

theorem download_saves_fetched_bytes_witness:
  "kind_of (step init ClickDownload) 0 = Some DownloadFetch \<and>
   effects (step (step init ClickDownload) (FetchResolved 0 (map Chunk [[37, 80], [68, 70]]))) =
     [CallFetch ''/assets/example.pdf'' ''GET'' 0, SaveFile ''a.pdf'' [37, 80, 68, 70]]"
  using download_saves_fetched_bytes [of "step init ClickDownload" "[[37, 80], [68, 70]]" 0]
  by (simp add: init_def handler_defs)

subsection \<open>A load that the viewer rejects\<close>

text \<open>
  Claim C2, as stated, fails. First load of a session: before the file read
  resolves \<open>isAlreadyLoaded\<close> is false; \<open>load\<close> sets it, the viewer rejects
  the document, the error is logged, and the flag is still true. Second load
  after an edit: the dirty flag is true before \<open>load\<close>; \<open>load\<close> unloads the
  instance and clears the flag, the viewer rejects the new document, and the
  flag stays false with no instance left.
\<close>

theorem rejected_load_changes_flags_counterexample:
  "\<not> isAlreadyLoaded (run init [SelectFile [''a.pdf''] True]) \<and>
   isAlreadyLoaded (run init [SelectFile [''a.pdf''] True,
                              ReadResolved 0 (ArrayBuffers [[37]]),
                              ViewerRejected 1 ''bad pdf'']) \<and>
   effects (run init [SelectFile [''a.pdf''] True,
                      ReadResolved 0 (ArrayBuffers [[37]]),
                      ViewerRejected 1 ''bad pdf'']) =
     [CallProcessFiles [''a.pdf''] 0, ClearFileInput,
      CallLoad \<lparr>container = ''.App'', document = ArrayBuffers [[37]]\<rparr> 1,
      ConsoleError ''bad pdf''] \<and>
   hasUnsavedAnnotations (run init (edited @ [SelectFile [''b.pdf''] True])) \<and>
   \<not> hasUnsavedAnnotations (run init (edited @ [SelectFile [''b.pdf''] True,
                              ReadResolved 2 (ArrayBuffers [[38]]),
                              ViewerRejected 3 ''bad pdf'']))"
  unfolding run_append run_edited by (simp add: run_def init_def handler_defs)

text \<open>
  Claim C2, amended. The rejection of the promise of \<open>PSPDFKit.load\<close> is
  reported with \<open>console.error\<close> and changes nothing else but the promise
  being settled: both flags, the handlers and their registrations are what
  they were just before the rejection, so no observer is attached. What they
  were is what the call of \<open>load\<close> made them: \<open>isAlreadyLoaded\<close> true, and
  \<open>hasUnsavedAnnotations\<close> false when an instance had been loaded before,
  unchanged otherwise. Nothing restores the values from before the call.
\<close>

theorem rejected_load_reports_and_keeps_what_load_set:
  "(kind_of s p = Some ViewerCreate \<longrightarrow>
      step s (ViewerRejected p err) =
        s\<lparr>pending := filter (\<lambda>(q, k). q \<noteq> p) (pending s),
          effects := effects s @ [ConsoleError err]\<rparr>) \<and>
   isAlreadyLoaded (step (load doc s) (ViewerRejected (nextPromise s) err)) \<and>
   hasUnsavedAnnotations (step (load doc s) (ViewerRejected (nextPromise s) err)) =
     (\<not> isAlreadyLoaded s \<and> hasUnsavedAnnotations s) \<and>
   registrations (step (load doc s) (ViewerRejected (nextPromise s) err)) = registrations s \<and>
   closures (step (load doc s) (ViewerRejected (nextPromise s) err)) = closures s \<and>
   effects (step (load doc s) (ViewerRejected (nextPromise s) err)) =
     effects (load doc s) @ [ConsoleError err]"
proof -
  have k: "kind_of (load doc s) (nextPromise s) = Some ViewerCreate"
    by (simp add: kind_of_def load_frame)
  have r: "kind_of t q = Some ViewerCreate \<Longrightarrow>
      step t (ViewerRejected q err) =
        t\<lparr>pending := filter (\<lambda>(q', k). q' \<noteq> q) (pending t),
          effects := effects t @ [ConsoleError err]\<rparr>" for t q
    by (simp add: load_catch_def settle_def emit_def)
  show ?thesis
    unfolding r [OF k] using r [of s p] by (simp add: load_flags load_frame)
qed

theorem rejected_load_reports_and_keeps_what_load_set_witness:
  "kind_of (load (ArrayBuffer [37]) init) 0 = Some ViewerCreate \<and>
   step (load (ArrayBuffer [37]) init) (ViewerRejected 0 ''bad pdf'') =
     init\<lparr>isAlreadyLoaded := True, nextPromise := 1,
          effects := [CallLoad \<lparr>container = ''.App'', document = ArrayBuffer [37]\<rparr> 0,
                      ConsoleError ''bad pdf'']\<rparr>"
  using rejected_load_reports_and_keeps_what_load_set
          [of "load (ArrayBuffer [37]) init" 0 "''bad pdf''"]
  by (simp add: init_def handler_defs)

subsection \<open>The remote asset and the confirmation\<close>

text \<open>
  Claim C1 at a failing input. The remote asset is loaded and edited, so the
  dirty flag is true; the button is clicked again and the response arrives.
  \<open>callWs\<close> hands the bytes to \<open>load\<close> without \<open>shouldPreventLoad\<close>: the
  instance is unloaded and the dirty flag cleared, and no confirmation dialog
  was ever shown.
\<close>

theorem callWs_discards_edits_unconfirmed:
  "hasUnsavedAnnotations (run init (edited_remote @ [ClickCallAjax])) \<and>
   \<not> hasUnsavedAnnotations
       (run init (edited_remote @ [ClickCallAjax, FetchResolved 2 [Chunk [4]]])) \<and>
   effects (run init (edited_remote @ [ClickCallAjax, FetchResolved 2 [Chunk [4]]])) =
     [CallFetch ''/assets/example.pdf'' ''GET'' 0,
      CallLoad \<lparr>container = ''.App'', document = ArrayBuffer [1, 2, 3]\<rparr> 1,
      CallFetch ''/assets/example.pdf'' ''GET'' 2,
      ConsoleInfo ''Destroyed previous instance'', CallUnload ''.App'',
      CallLoad \<lparr>container = ''.App'', document = ArrayBuffer [4]\<rparr> 3]"
  unfolding run_append run_edited_remote by (simp add: run_def handler_defs)

subsection \<open>Reachable states\<close>

lemma settle_pending_subset: "set (pending (settle p s)) \<subseteq> set (pending s)"
  by (auto simp add: settle_def)

lemma dispatch_inv: "session_inv s \<Longrightarrow> session_inv (dispatch inst s)"
proof -
  assume i: "session_inv s"
  let ?hs = "map snd (filter (\<lambda>(j, h). j = inst) (registrations s))"
  have "hasUnsavedAnnotations (fold onAnnotationsChange ?hs s) \<longrightarrow> registrations s \<noteq> []"
  proof (cases "?hs = []")
    case True
    then show ?thesis using i by (simp add: session_inv_def)
  next
    case False
    then have "registrations s \<noteq> []" by auto
    then show ?thesis by simp
  qed
  then show ?thesis
    using i by (simp add: session_inv_def dispatch_def fold_onAC_frame)
qed

lemma load_inv:
  assumes "session_inv s"
  shows "session_inv (load doc s)"
  using assms by (simp add: session_inv_def load_flags load_frame)

lemma destroyDragAndDrop_inv:
  assumes "session_inv s"
  shows "session_inv (destroyDragAndDrop s)"
  using assms
  by (simp add: session_inv_def destroyDragAndDrop_def split: option.splits cleanup.splits)

lemma settle_inv:
  assumes "session_inv s"
  shows "session_inv (settle p s)"
proof -
  have "ViewerCreate \<in> snd ` set (pending (settle p s)) \<Longrightarrow>
        ViewerCreate \<in> snd ` set (pending s)"
    using settle_pending_subset [of p s] by auto
  then show ?thesis
    using assms unfolding session_inv_def by (auto simp add: settle_def)
qed

lemma emit_inv: "session_inv (emit x s) = session_inv s"
  by (simp add: session_inv_def emit_def)

lemma step_inv:
  assumes "session_inv s"
  shows "session_inv (step s e)"
proof (cases e)
  case (Drop files answer)
  with assms show ?thesis
    by (auto simp add: session_inv_def onDrop_def shouldPreventLoad_def processFiles_def
        newPromise_def emit_def Let_def)
next
  case (SelectFile files answer)
  with assms show ?thesis
    by (auto simp add: session_inv_def onSelectFileChange_def shouldPreventLoad_def
        processFiles_def newPromise_def emit_def Let_def)
next
  case ClickCallAjax
  with assms show ?thesis
    by (auto simp add: session_inv_def callWs_def fetch_def newPromise_def emit_def Let_def)
next
  case ClickDownload
  with assms show ?thesis
    by (auto simp add: session_inv_def download_def fetch_def newPromise_def emit_def Let_def)
next
  case (ReadResolved p bufs)
  with assms show ?thesis
    by (simp add: onDrop_then_def onFileSelectSuccess_def load_inv destroyDragAndDrop_inv
        settle_inv)
next
  case (ReadRejected p message)
  with assms show ?thesis
    by (simp add: onFail_def emit_inv settle_inv)
next
  case (FetchResolved p results)
  have "session_inv (download_then results (settle p s))"
    using settle_inv [OF assms, of p]
    by (simp add: session_inv_def download_then_def createObjectURL_def click_def
        revokeObjectURL_def emit_def Blob_def Let_def split: option.splits)
  with FetchResolved assms show ?thesis
    by (simp add: callWs_then_def load_inv settle_inv split: option.splits)
next
  case (FetchRejected p)
  with assms show ?thesis by (simp add: settle_inv)
next
  case (ViewerResolved p inst)
  have "session_inv (load_then inst (settle p s))" if "kind_of s p = Some ViewerCreate"
  proof -
    have "(p, ViewerCreate) \<in> set (pending s)"
      using that by (simp add: kind_of_def map_of_SomeD)
    then have "ViewerCreate \<in> snd ` set (pending s)" by force
    then have "isAlreadyLoaded s" using assms by (simp add: session_inv_def)
    then show ?thesis
      using settle_inv [OF assms, of p]
      by (simp add: session_inv_def load_then_def createOnAnnotationsChange_def
          addEventListener_def settle_def)
  qed
  with ViewerResolved assms show ?thesis by simp
next
  case (ViewerRejected p err)
  with assms show ?thesis by (simp add: load_catch_def emit_inv settle_inv)
next
  case (AnnotationsChange inst)
  with assms show ?thesis by (simp add: dispatch_inv)
qed

lemma init_inv: "session_inv init"
  by (simp add: session_inv_def init_def)

lemma run_inv: "session_inv s \<Longrightarrow> session_inv (run s es)"
  unfolding run_def by (induction es arbitrary: s) (simp_all add: step_inv)

lemma reachable_inv: "session_inv (run init es)"
  by (rule run_inv [OF init_inv])

subsection \<open>The first load of a session\<close>

lemma step_no_observer:
  assumes "registrations s = []" and "\<not> hasUnsavedAnnotations s" and "\<not> is_ViewerResolved e"
  shows "registrations (step s e) = [] \<and> \<not> hasUnsavedAnnotations (step s e)"
proof (cases e)
  case (ReadResolved p bufs)
  with assms show ?thesis
    by (simp add: onDrop_then_def onFileSelectSuccess_def load_flags load_frame
        destroyDragAndDrop_def settle_def split: option.splits cleanup.splits)
next
  case (FetchResolved p results)
  with assms show ?thesis
    by (simp add: callWs_then_def download_then_def load_flags load_frame settle_def
        createObjectURL_def click_def revokeObjectURL_def emit_def Blob_def Let_def
        split: option.splits)
qed (use assms in \<open>simp_all add: handler_defs Let_def\<close>)

lemma run_no_observer:
  assumes "\<forall>e \<in> set es. \<not> is_ViewerResolved e"
    and "registrations s = []" and "\<not> hasUnsavedAnnotations s"
  shows "registrations (run s es) = [] \<and> \<not> hasUnsavedAnnotations (run s es)"
  using assms
proof (induction es arbitrary: s)
  case Nil
  then show ?case by (simp add: run_Nil)
next
  case (Cons e es)
  have "registrations (step s e) = [] \<and> \<not> hasUnsavedAnnotations (step s e)"
    using Cons.prems by (intro step_no_observer) simp_all
  then show ?case
    using Cons.IH [of "step s e"] Cons.prems(1) by (simp add: run_Cons)
qed

text \<open>
  Claim C3, as stated, fails at \<open>n = 2\<close>. The first load of a session
  succeeds, and the viewer fires two \<open>annotations.change\<close> events while it
  populates the new instance: the observer skips one event only, and the dirty
  flag is true although the user edited nothing.
\<close>

theorem second_init_event_sets_dirty_counterexample:
  "\<not> hasUnsavedAnnotations
       (run init [SelectFile [''a.pdf''] True, ReadResolved 0 (ArrayBuffers [[37]]),
                  ViewerResolved 1 0]) \<and>
   hasUnsavedAnnotations
       (run init ([SelectFile [''a.pdf''] True, ReadResolved 0 (ArrayBuffers [[37]]),
                   ViewerResolved 1 0] @ replicate 2 (AnnotationsChange 0)))"
  by (simp add: numeral_2_eq_2 run_def init_def handler_defs)

text \<open>
  Claim C3, amended. Take any trace from \<open>init\<close> in which no load has
  succeeded yet, with any number of \<open>annotations.change\<close> events in it (no
  observer is attached, so none is seen), and let a pending viewer load
  succeed. Immediately afterwards the dirty flag is false, and it is still
  false after the one initialization event the observer is written to skip:
  for \<open>n \<le> 1\<close> events delivered to the new instance.
\<close>

theorem first_load_clean_up_to_one_init_event:
  assumes "\<forall>e \<in> set es. \<not> is_ViewerResolved e"
    and "kind_of (run init es) p = Some ViewerCreate"
    and "n \<le> 1"
  shows "\<not> hasUnsavedAnnotations
             (run init (es @ ViewerResolved p inst # replicate n (AnnotationsChange inst)))"
proof -
  define s where "s = run init es"
  have clean: "registrations s = [] \<and> \<not> hasUnsavedAnnotations s"
    unfolding s_def using assms(1) by (intro run_no_observer) (simp_all add: init_def)
  define s1 where "s1 = step s (ViewerResolved p inst)"
  have s1: "s1 = (settle p s)\<lparr>closures := closures s @ [False],
                 registrations := [(inst, length (closures s))]\<rparr>"
    using assms(2) clean
    by (simp add: s1_def s_def load_then_def createOnAnnotationsChange_def
        addEventListener_def settle_def)
  have zero: "\<not> hasUnsavedAnnotations s1"
    using clean by (simp add: s1 settle_def)
  have one: "\<not> hasUnsavedAnnotations (step s1 (AnnotationsChange inst))"
    using clean by (simp add: s1 settle_def dispatch_def onAnnotationsChange_def)
  have r: "run init (es @ ViewerResolved p inst # evs) = run s1 evs" for evs
    by (simp add: run_append run_Cons s_def s1_def)
  from assms(3) have "n = 0 \<or> n = 1" by arith
  then show ?thesis
    unfolding r using zero one by (auto simp add: run_Nil run_Cons)
qed

theorem first_load_clean_up_to_one_init_event_witness:
  "list_all (\<lambda>e. \<not> is_ViewerResolved e)
     [AnnotationsChange 0, SelectFile [''a.pdf''] True,
      ReadResolved 0 (ArrayBuffers [[37]]), AnnotationsChange 0] \<and>
   kind_of (run init [AnnotationsChange 0, SelectFile [''a.pdf''] True,
                      ReadResolved 0 (ArrayBuffers [[37]]), AnnotationsChange 0]) 1 =
     Some ViewerCreate \<and>
   \<not> hasUnsavedAnnotations
       (run init [AnnotationsChange 0, SelectFile [''a.pdf''] True,
                  ReadResolved 0 (ArrayBuffers [[37]]), AnnotationsChange 0,
                  ViewerResolved 1 0, AnnotationsChange 0])"
proof -
  have h: "\<forall>e \<in> set [AnnotationsChange 0, SelectFile [''a.pdf''] True,
               ReadResolved 0 (ArrayBuffers [[37]]), AnnotationsChange 0].
       \<not> is_ViewerResolved e"
    by simp
  have k: "kind_of (run init [AnnotationsChange 0, SelectFile [''a.pdf''] True,
                      ReadResolved 0 (ArrayBuffers [[37]]), AnnotationsChange 0]) 1 =
     Some ViewerCreate"
    by (simp add: run_def init_def handler_defs)
  show ?thesis
    using h k first_load_clean_up_to_one_init_event [OF h k, of 1 0] by simp
qed

subsection \<open>The remote asset\<close>

lemma pump_chunks: "pump (map Chunk chunks) queue = Some (queue @ chunks)"
  by (induction chunks arbitrary: queue) simp_all

text \<open>
  Claim C7. In a state reached from \<open>init\<close> where the fetch of \<open>callWs\<close> is
  pending, let the response arrive and every read of its body succeed. Then
  \<open>PSPDFKit.load\<close> is called with the chunks read, joined in order, as the
  document (after the unload of a previous instance, if there was one);
  \<open>isAlreadyLoaded\<close> is true and the dirty flag false, with the viewer promise
  pending. When that promise resolves next, the flags are the same and the new
  instance has its observer.
\<close>

theorem remote_fetch_loads_clean:
  assumes "kind_of (run init es) p = Some AssetFetch"
  shows "effects (run init (es @ [FetchResolved p (map Chunk chunks)])) =
           effects (run init es)
           @ (if isAlreadyLoaded (run init es)
              then [ConsoleInfo ''Destroyed previous instance'', CallUnload ''.App''] else [])
           @ [CallLoad \<lparr>container = ''.App'', document = ArrayBuffer (concat chunks)\<rparr>
                (nextPromise (run init es))] \<and>
         isAlreadyLoaded (run init (es @ [FetchResolved p (map Chunk chunks)])) \<and>
         \<not> hasUnsavedAnnotations (run init (es @ [FetchResolved p (map Chunk chunks)])) \<and>
         kind_of (run init (es @ [FetchResolved p (map Chunk chunks)]))
           (nextPromise (run init es)) = Some ViewerCreate \<and>
         isAlreadyLoaded
           (run init (es @ [FetchResolved p (map Chunk chunks),
                            ViewerResolved (nextPromise (run init es)) inst])) \<and>
         \<not> hasUnsavedAnnotations
           (run init (es @ [FetchResolved p (map Chunk chunks),
                            ViewerResolved (nextPromise (run init es)) inst])) \<and>
         (inst, length (closures (run init es))) \<in>
           set (registrations
             (run init (es @ [FetchResolved p (map Chunk chunks),
                              ViewerResolved (nextPromise (run init es)) inst])))"
proof -
  define s where "s = run init es"
  define s1 where "s1 = step s (FetchResolved p (map Chunk chunks))"
  define s2 where "s2 = step s1 (ViewerResolved (nextPromise s) inst)"
  have inv: "hasUnsavedAnnotations s \<longrightarrow> isAlreadyLoaded s"
    using reachable_inv [of es] by (simp add: session_inv_def s_def)
  have s1: "s1 = load (ArrayBuffer (concat chunks)) (settle p s)"
    using assms by (simp add: s1_def s_def callWs_then_def arrayBuffer_def pump_chunks)
  have st: "isAlreadyLoaded (settle p s) = isAlreadyLoaded s"
    "hasUnsavedAnnotations (settle p s) = hasUnsavedAnnotations s"
    "effects (settle p s) = effects s" "nextPromise (settle p s) = nextPromise s"
    "closures (settle p s) = closures s"
    by (simp_all add: settle_def)
  have e1: "effects s1 = effects s
           @ (if isAlreadyLoaded s
              then [ConsoleInfo ''Destroyed previous instance'', CallUnload ''.App''] else [])
           @ [CallLoad \<lparr>container = ''.App'', document = ArrayBuffer (concat chunks)\<rparr>
                (nextPromise s)]"
    by (simp add: s1 load_effects st)
  have f1: "isAlreadyLoaded s1" "\<not> hasUnsavedAnnotations s1"
    using inv by (auto simp add: s1 load_flags st)
  have k1: "kind_of s1 (nextPromise s) = Some ViewerCreate"
    by (simp add: s1 kind_of_def load_frame st)
  have s2: "s2 = load_then inst (settle (nextPromise s) s1)"
    using k1 by (simp add: s2_def)
  have f2: "isAlreadyLoaded s2" "\<not> hasUnsavedAnnotations s2"
    using f1 by (simp_all add: s2 load_then_def createOnAnnotationsChange_def
        addEventListener_def settle_def)
  have c1: "closures s1 = closures s" by (simp add: s1 load_frame st)
  have r2: "(inst, length (closures s)) \<in> set (registrations s2)"
    by (simp add: s2 load_then_def createOnAnnotationsChange_def addEventListener_def
        settle_def c1)
  have u1: "run init (es @ [FetchResolved p (map Chunk chunks)]) = s1"
    by (simp add: run_snoc s1_def s_def)
  have u2: "run init (es @ [FetchResolved p (map Chunk chunks),
                            ViewerResolved (nextPromise s) inst]) = s2"
    by (simp add: run_append run_Cons run_Nil s2_def s1_def s_def)
  show ?thesis
    using e1 f1 k1 f2 r2 unfolding u1 u2 [unfolded s_def] s_def [symmetric]
    unfolding u2 by blast
qed

theorem remote_fetch_loads_clean_witness:
  "kind_of (run init (edited_remote @ [ClickCallAjax])) 2 = Some AssetFetch \<and>
   hasUnsavedAnnotations (run init (edited_remote @ [ClickCallAjax])) \<and>
   effects (run init ((edited_remote @ [ClickCallAjax]) @
                      [FetchResolved 2 (map Chunk [[4, 5], [6]])])) =
     [CallFetch ''/assets/example.pdf'' ''GET'' 0,
      CallLoad \<lparr>container = ''.App'', document = ArrayBuffer [1, 2, 3]\<rparr> 1,
      CallFetch ''/assets/example.pdf'' ''GET'' 2,
      ConsoleInfo ''Destroyed previous instance'', CallUnload ''.App'',
      CallLoad \<lparr>container = ''.App'', document = ArrayBuffer [4, 5, 6]\<rparr> 3] \<and>
   \<not> hasUnsavedAnnotations
       (run init ((edited_remote @ [ClickCallAjax]) @
                  [FetchResolved 2 (map Chunk [[4, 5], [6]]), ViewerResolved 3 1]))"
proof -
  have s: "run init (edited_remote @ [ClickCallAjax]) =
     \<lparr>hasUnsavedAnnotations = True, isAlreadyLoaded = True,
      destroyListener = Some RemoveDropListeners, dropListening = True,
      dragTextHidden = False, closures = [True], registrations = [(0, 0)],
      pending = [(2, AssetFetch)], nextPromise = 3, objectURLs = [], nextURL = 0,
      effects =
        [CallFetch ''/assets/example.pdf'' ''GET'' 0,
         CallLoad \<lparr>container = ''.App'', document = ArrayBuffer [1, 2, 3]\<rparr> 1,
         CallFetch ''/assets/example.pdf'' ''GET'' 2]\<rparr>"
    unfolding run_append run_edited_remote by (simp add: run_def handler_defs)
  have k: "kind_of (run init (edited_remote @ [ClickCallAjax])) 2 = Some AssetFetch"
    unfolding s by (simp add: kind_of_def)
  show ?thesis
    using k remote_fetch_loads_clean [OF k, of "[[4, 5], [6]]" 1]
    by (simp add: s)
qed

subsection \<open>The drop listener\<close>

lemma step_drop_destroyed:
  assumes "destroyListener s = None" and "\<not> dropListening s"
  shows "destroyListener (step s e) = None \<and> \<not> dropListening (step s e)"
  using assms
  by (cases e)
    (simp_all add: handler_defs fold_onAC_frame Let_def split: option.splits)

lemma run_drop_destroyed:
  assumes "destroyListener s = None" and "\<not> dropListening s"
  shows "destroyListener (run s es) = None \<and> \<not> dropListening (run s es)"
  using assms
proof (induction es arbitrary: s)
  case Nil
  then show ?case by (simp add: run_Nil)
next
  case (Cons e es)
  then show ?case using step_drop_destroyed [of s e] by (simp add: run_Cons)
qed

text \<open>
  Claim C10. In a state reached from \<open>init\<close>, when the file read started by a
  drop or by the picker resolves, \<open>destroyListener\<close> is null and the drop
  listener is gone. From any such state both stay so after every trace, and a
  drop at any later moment is not an event of the program: the state after it
  is the state before it. The picker and the remote button still start their
  reads: a pick of some files (confirmed, should the dirty flag be set) and a
  click each leave a new pending promise.
\<close>

theorem drag_and_drop_is_one_shot:
  "(kind_of (run init es) p = Some DropRead \<or> kind_of (run init es) p = Some PickRead \<longrightarrow>
      destroyListener (run init (es @ [ReadResolved p bufs])) = None \<and>
      \<not> dropListening (run init (es @ [ReadResolved p bufs]))) \<and>
   (destroyListener s = None \<and> \<not> dropListening s \<longrightarrow>
      destroyListener (run s es') = None \<and> \<not> dropListening (run s es') \<and>
      run s (es' @ [Drop files answer]) = run s es' \<and>
      (files \<noteq> [] \<and> (hasUnsavedAnnotations (run s es') \<longrightarrow> answer) \<longrightarrow>
         kind_of (run s (es' @ [SelectFile files answer])) (nextPromise (run s es')) =
           Some PickRead) \<and>
      kind_of (run s (es' @ [ClickCallAjax])) (nextPromise (run s es')) = Some AssetFetch)"
proof -
  have a: "destroyListener (run init (es @ [ReadResolved p bufs])) = None \<and>
      \<not> dropListening (run init (es @ [ReadResolved p bufs]))"
    if "kind_of (run init es) p = Some DropRead \<or> kind_of (run init es) p = Some PickRead"
  proof -
    have "dropListening (run init es) = (destroyListener (run init es) \<noteq> None)"
      using reachable_inv [of es] by (simp add: session_inv_def)
    then show ?thesis
      using that
      by (auto simp add: run_snoc onDrop_then_def onFileSelectSuccess_def load_frame
          destroyDragAndDrop_def settle_def split: option.splits cleanup.splits)
  qed
  have b: "destroyListener (run s es') = None \<and> \<not> dropListening (run s es') \<and>
      run s (es' @ [Drop files answer]) = run s es'"
    if "destroyListener s = None \<and> \<not> dropListening s"
    using run_drop_destroyed [of s es'] that by (simp add: run_snoc)
  have c: "kind_of (step t (SelectFile files answer)) (nextPromise t) = Some PickRead"
    if "files \<noteq> []" and "hasUnsavedAnnotations t \<longrightarrow> answer" for t
    using that by (simp add: handler_defs Let_def)
  have d: "kind_of (step t ClickCallAjax) (nextPromise t) = Some AssetFetch" for t
    by (simp add: handler_defs Let_def)
  show ?thesis
    using a b c [of "run s es'"] d [of "run s es'"] unfolding run_snoc by blast
qed

theorem drag_and_drop_is_one_shot_witness:
  "kind_of (run init [Drop [''a.pdf''] True]) 0 = Some DropRead \<and>
   dropListening (run init [Drop [''a.pdf''] True]) \<and>
   destroyListener (run init ([Drop [''a.pdf''] True] @
                              [ReadResolved 0 (ArrayBuffers [[37]])])) = None \<and>
   \<not> dropListening (run init ([Drop [''a.pdf''] True] @
                               [ReadResolved 0 (ArrayBuffers [[37]])])) \<and>
   run (run init [Drop [''a.pdf''] True, ReadResolved 0 (ArrayBuffers [[37]])])
       ([ViewerResolved 1 0] @ [Drop [''b.pdf''] True]) =
     run (run init [Drop [''a.pdf''] True, ReadResolved 0 (ArrayBuffers [[37]])])
       [ViewerResolved 1 0]"
proof -
  have k: "kind_of (run init [Drop [''a.pdf''] True]) 0 = Some DropRead"
    and l: "dropListening (run init [Drop [''a.pdf''] True])"
    by (simp_all add: run_def init_def handler_defs)
  have g: "destroyListener
             (run init [Drop [''a.pdf''] True, ReadResolved 0 (ArrayBuffers [[37]])]) = None \<and>
           \<not> dropListening
             (run init [Drop [''a.pdf''] True, ReadResolved 0 (ArrayBuffers [[37]])])"
    by (simp add: run_def init_def handler_defs)
  show ?thesis
    using k l g
      drag_and_drop_is_one_shot
        [of "[Drop [''a.pdf''] True]" 0 "ArrayBuffers [[37]]"
            "run init [Drop [''a.pdf''] True, ReadResolved 0 (ArrayBuffers [[37]])]"
            "[ViewerResolved 1 0]" "[''b.pdf'']" True]
    by simp
qed

subsection \<open>Edits made while a file is being read\<close>

text \<open>
  The confirmation is asked when the user picks the file, the teardown happens
  when the read resolves. A document is open and clean; the user picks a second
  file, so no dialog is shown; an edit arrives before the read resolves; the
  read resolves and \<open>load\<close> unloads the edited instance. The log holds no
  confirmation.
\<close>

theorem edit_during_read_is_discarded_unconfirmed:
  "\<not> hasUnsavedAnnotations
       (run init [SelectFile [''a.pdf''] True, ReadResolved 0 (ArrayBuffers [[37]]),
                  ViewerResolved 1 0, AnnotationsChange 0, SelectFile [''b.pdf''] False]) \<and>
   hasUnsavedAnnotations
       (run init [SelectFile [''a.pdf''] True, ReadResolved 0 (ArrayBuffers [[37]]),
                  ViewerResolved 1 0, AnnotationsChange 0, SelectFile [''b.pdf''] False,
                  AnnotationsChange 0]) \<and>
   \<not> hasUnsavedAnnotations
       (run init [SelectFile [''a.pdf''] True, ReadResolved 0 (ArrayBuffers [[37]]),
                  ViewerResolved 1 0, AnnotationsChange 0, SelectFile [''b.pdf''] False,
                  AnnotationsChange 0, ReadResolved 2 (ArrayBuffers [[38]])]) \<and>
   effects
       (run init [SelectFile [''a.pdf''] True, ReadResolved 0 (ArrayBuffers [[37]]),
                  ViewerResolved 1 0, AnnotationsChange 0, SelectFile [''b.pdf''] False,
                  AnnotationsChange 0, ReadResolved 2 (ArrayBuffers [[38]])]) =
     [CallProcessFiles [''a.pdf''] 0, ClearFileInput,
      CallLoad \<lparr>container = ''.App'', document = ArrayBuffers [[37]]\<rparr> 1,
      CallProcessFiles [''b.pdf''] 2, ClearFileInput,
      ConsoleInfo ''Destroyed previous instance'', CallUnload ''.App'',
      CallLoad \<lparr>container = ''.App'', document = ArrayBuffers [[38]]\<rparr> 3]"
  by (simp add: run_def init_def handler_defs)

end
